theory Spec2Isabelle
  imports
    Complex_Main
    "HOL-Library.Word"
    "HOL-Library.Char_ord"
    "HOL-Library.List_Lexorder"
    "HOL-Library.Product_Lexorder"
begin

unbundle bit_operations_syntax

section \<open>Heart-rate dashboard: the model of \<open>main.py\<close>\<close>

text \<open>
  The program is one Python module. Its process-wide variables (\<open>manager\<close>,
  \<open>current_client\<close>, \<open>current_hr\<close>), the \<open>measurements\<close> table and everything
  it does to the outside (log lines, messages to viewers, calls on the Bluetooth
  client) are gathered in one state record that every operation takes and returns.
  What the outside answers (whether a send succeeds, whether the database can be
  written, whether the peripheral accepts a connection) is an argument of each
  operation.
\<close>

subsection \<open>Payload of a heart-rate notification\<close>

type_synonym byte = "8 word"

datatype py_error =
    IndexError     \<comment> \<open>indexing a bytearray out of range\<close>
  | StructError    \<comment> \<open>\<open>struct.error\<close>: buffer too small for the format\<close>
  | OverflowError  \<comment> \<open>\<open>sqlite3\<close>: a Python int too large for an SQLite INTEGER\<close>

text \<open>
  \<open>struct.unpack_from("<H", data, offset)[0]\<close>: two bytes from \<open>offset\<close>, the
  first one the low half of an unsigned 16-bit number. \<open>struct\<close> raises when fewer
  than two bytes are left.
\<close>

definition unpack_from_H :: "byte list \<Rightarrow> nat \<Rightarrow> py_error + int" where
  "unpack_from_H data offset =
     (if length data < offset + 2 then Inl StructError
      else Inr (uint (word_cat (data ! (offset + 1)) (data ! offset) :: 16 word)))"

text \<open>
  Lines 210 to 216 of \<open>heart_rate_notification_handler\<close>: the value \<open>hr_val\<close>
  read from the payload. \<open>data[0]\<close> and \<open>data[1]\<close> raise \<open>IndexError\<close> on a
  bytearray that is too short.
\<close>

definition hr_val_of :: "byte list \<Rightarrow> py_error + int" where
  "hr_val_of data =
     (if length data < 1 then Inl IndexError
      else
        let flag = data ! 0;
            hr_format = flag AND 1
        in if hr_format = 0
           then (if length data < 2 then Inl IndexError else Inr (uint (data ! 1)))
           else unpack_from_H data 1)"

subsection \<open>Viewers, messages and what the program does to the outside\<close>

type_synonym websocket = nat \<comment> \<open>the identity of a \<open>WebSocket\<close> object\<close>

datatype message =
    Heart_rate int      \<comment> \<open>\<open>{"type": "heart_rate", "value": hr_val}\<close>\<close>
  | Status string       \<comment> \<open>\<open>{"type": "status", "message": ...}\<close>\<close>
  | Error_msg string    \<comment> \<open>\<open>{"type": "error", "message": str(e)}\<close>\<close>

text \<open>
  Every effect the module has outside its own variables, in the order it happens:
  the calls of \<open>logger\<close>, the assignment of \<open>current_hr\<close>, the \<open>INSERT\<close>, each
  call of \<open>manager.broadcast\<close> and each \<open>send_json\<close> it makes, and the calls on a
  \<open>BleakClient\<close> (named by its index in \<open>clients\<close>). A boolean says whether the
  call succeeded or raised.
\<close>

datatype effect =
    Log_info_heart_rate int              \<comment> \<open>\<open>logger.info(f"Heart Rate: {hr_val}")\<close>\<close>
  | Log_error_database                   \<comment> \<open>\<open>logger.error(f"Database error: {e}")\<close>\<close>
  | Log_error_broadcast websocket        \<comment> \<open>\<open>logger.error(f"Error broadcasting message: {e}")\<close>\<close>
  | Log_error_connection                 \<comment> \<open>\<open>logger.error(f"Connection error: {e}")\<close>\<close>
  | Set_current_hr int
  | Insert_measurement int string bool
  | Broadcast message
  | Send_json websocket message bool
  | Client_disconnect nat
  | Client_connect nat bool
  | Client_start_notify nat bool

record ble_client =
  address :: string
  is_connected :: bool
  notify_callbacks :: "string list" \<comment> \<open>the keys of \<open>_notify_callbacks\<close>\<close>

record measurement =
  row_id :: nat
  timestamp :: string      \<comment> \<open>\<open>CURRENT_TIMESTAMP\<close>: the text \<open>YYYY-MM-DD HH:MM:SS\<close>\<close>
  hr_value :: int          \<comment> \<open>column \<open>value\<close>\<close>
  device_address :: string

text \<open>What the outside answers while one operation runs.\<close>

record world =
  send_json_ok :: "websocket \<Rightarrow> bool" \<comment> \<open>does \<open>send_json\<close> to this viewer return\<close>
  db_ok :: bool                        \<comment> \<open>can \<open>heart_rate.db\<close> be opened and written\<close>
  now :: string                        \<comment> \<open>the value of \<open>CURRENT_TIMESTAMP\<close>\<close>
  connect_ok :: bool                   \<comment> \<open>does \<open>BleakClient.connect\<close> return\<close>
  start_notify_ok :: bool              \<comment> \<open>does \<open>BleakClient.start_notify\<close> return\<close>
  error_text :: string                 \<comment> \<open>\<open>str(e)\<close> of the exception raised\<close>

record app_state =
  active_connections :: "websocket list"  \<comment> \<open>\<open>manager.active_connections\<close>\<close>
  clients :: "ble_client list"            \<comment> \<open>every \<open>BleakClient\<close> object created so far\<close>
  current_client :: "nat option"          \<comment> \<open>\<open>None\<close> or a reference into \<open>clients\<close>\<close>
  current_hr :: int
  measurements :: "measurement list"      \<comment> \<open>the table, in insertion order\<close>
  trace :: "effect list"

definition HR_UUID :: string where
  "HR_UUID = ''00002a37-0000-1000-8000-00805f9b34fb''"

definition init_state :: app_state where
  "init_state = \<lparr>active_connections = [], clients = [], current_client = None,
     current_hr = 0, measurements = [], trace = []\<rparr>"

definition emit :: "effect list \<Rightarrow> app_state \<Rightarrow> app_state" where
  "emit es s = s\<lparr>trace := trace s @ es\<rparr>"

subsection \<open>\<open>ConnectionManager.broadcast\<close>\<close>

text \<open>
  The body of the \<open>for\<close> loop: \<open>send_json\<close> inside \<open>try\<close>, the error logged in
  \<open>except Exception\<close>. The list of viewers is not changed.
\<close>

definition try_send_json :: "world \<Rightarrow> message \<Rightarrow> websocket \<Rightarrow> effect list" where
  "try_send_json w msg connection =
     (if send_json_ok w connection
      then [Send_json connection msg True]
      else [Send_json connection msg False, Log_error_broadcast connection])"

fun broadcast_loop :: "world \<Rightarrow> message \<Rightarrow> websocket list \<Rightarrow> app_state \<Rightarrow> app_state" where
  "broadcast_loop w msg [] s = s"
| "broadcast_loop w msg (connection # rest) s =
     broadcast_loop w msg rest (emit (try_send_json w msg connection) s)"

definition broadcast :: "world \<Rightarrow> message \<Rightarrow> app_state \<Rightarrow> app_state" where
  "broadcast w msg s = broadcast_loop w msg (active_connections s) (emit [Broadcast msg] s)"

text \<open>Reading a trace: the \<open>send_json\<close> calls made, those that returned, the failures logged.\<close>

definition send_attempts :: "effect list \<Rightarrow> (websocket \<times> message) list" where
  "send_attempts es =
     concat (map (\<lambda>e. case e of Send_json c m ok \<Rightarrow> [(c, m)] | _ \<Rightarrow> []) es)"

definition deliveries :: "effect list \<Rightarrow> (websocket \<times> message) list" where
  "deliveries es =
     concat (map (\<lambda>e. case e of Send_json c m ok \<Rightarrow> if ok then [(c, m)] else [] | _ \<Rightarrow> []) es)"

definition broadcast_errors_logged :: "effect list \<Rightarrow> websocket list" where
  "broadcast_errors_logged es =
     concat (map (\<lambda>e. case e of Log_error_broadcast c \<Rightarrow> [c] | _ \<Rightarrow> []) es)"

subsection \<open>\<open>save_heart_rate\<close>\<close>

definition next_row_id :: "measurement list \<Rightarrow> nat" where
  "next_row_id ms = Suc (fold max (map row_id ms) 0)"

definition save_heart_rate :: "world \<Rightarrow> int \<Rightarrow> string \<Rightarrow> app_state \<Rightarrow> app_state" where
  "save_heart_rate w v device s =
     (if db_ok w
      then emit [Insert_measurement v device True]
             (s\<lparr>measurements := measurements s @
                 [\<lparr>row_id = next_row_id (measurements s), timestamp = now w,
                   hr_value = v, device_address = device\<rparr>]\<rparr>)
      else emit [Insert_measurement v device False, Log_error_database] s)"

subsection \<open>\<open>heart_rate_notification_handler\<close>\<close>

text \<open>
  The handler has no \<open>try\<close>: an exception of the decoding leaves it before any
  assignment, and goes to whoever called the callback. The first component of the
  result is that exception, if any.
\<close>

definition heart_rate_notification_handler ::
    "world \<Rightarrow> byte list \<Rightarrow> app_state \<Rightarrow> py_error option \<times> app_state" where
  "heart_rate_notification_handler w data s =
     (case hr_val_of data of
        Inl e \<Rightarrow> (Some e, s)
      | Inr hr_val \<Rightarrow>
          let s1 = emit [Set_current_hr hr_val, Log_info_heart_rate hr_val]
                     (s\<lparr>current_hr := hr_val\<rparr>);
              s2 = (case current_client s1 of
                      None \<Rightarrow> s1
                    | Some c \<Rightarrow> save_heart_rate w hr_val (address (clients s1 ! c)) s1)
          in (None, broadcast w (Heart_rate hr_val) s2))"

subsection \<open>\<open>connect_ble\<close> and \<open>disconnect_ble\<close>\<close>

text \<open>\<open>BleakClient.disconnect\<close> as the class in the module has it: it clears the flag.\<close>

definition client_disconnect :: "nat \<Rightarrow> app_state \<Rightarrow> app_state" where
  "client_disconnect c s =
     emit [Client_disconnect c]
       (s\<lparr>clients := (clients s)[c := (clients s ! c)\<lparr>is_connected := False\<rparr>]\<rparr>)"

definition session_connected :: "app_state \<Rightarrow> bool" where
  \<comment> \<open>\<open>current_client and current_client.is_connected\<close>\<close>
  "session_connected s =
     (case current_client s of None \<Rightarrow> False | Some c \<Rightarrow> is_connected (clients s ! c))"

text \<open>The \<open>except Exception\<close> branch of \<open>connect_ble\<close>.\<close>

definition connect_ble_except :: "world \<Rightarrow> app_state \<Rightarrow> app_state" where
  "connect_ble_except w s =
     (broadcast w (Error_msg (error_text w)) (emit [Log_error_connection] s))
       \<lparr>current_client := None\<rparr>"

text \<open>
  \<open>connect_ble\<close> up to the point where \<open>await current_client.connect()\<close> waits for
  the peripheral: the old client is disconnected if it is connected, the status is
  broadcast, the new client object is created and assigned. The result names the new
  object, which the waiting \<open>connect\<close> call holds as \<open>self\<close>.
\<close>

definition connect_ble_begin :: "world \<Rightarrow> string \<Rightarrow> app_state \<Rightarrow> nat \<times> app_state" where
  "connect_ble_begin w addr s =
     (let s1 = (if session_connected s
                then client_disconnect (the (current_client s)) s else s);
          s2 = broadcast w (Status (''Connecting to '' @ addr @ ''...'')) s1;
          c = length (clients s2)
      in (c, s2\<lparr>clients := clients s2 @
                   [\<lparr>address = addr, is_connected = False, notify_callbacks = []\<rparr>],
               current_client := Some c\<rparr>))"

text \<open>
  \<open>connect_ble\<close> from the moment the \<open>connect\<close> call of client \<open>c\<close> ends: the flag of
  that object is set, the status is broadcast, and \<open>start_notify\<close> is called on what
  the global \<open>current_client\<close> holds by then (\<open>None\<close> has no such method, which
  raises inside the \<open>try\<close>).
\<close>

definition connect_ble_resume :: "world \<Rightarrow> string \<Rightarrow> nat \<Rightarrow> app_state \<Rightarrow> app_state" where
  "connect_ble_resume w addr c s =
     (if \<not> connect_ok w then connect_ble_except w (emit [Client_connect c False] s)
      else
        let s1 = emit [Client_connect c True]
                   (s\<lparr>clients := (clients s)[c := (clients s ! c)\<lparr>is_connected := True\<rparr>]\<rparr>);
            s2 = broadcast w (Status (''Connected to '' @ addr)) s1
        in case current_client s2 of
             None \<Rightarrow> connect_ble_except w s2
           | Some c' \<Rightarrow>
               if start_notify_ok w
               then emit [Client_start_notify c' True]
                      (s2\<lparr>clients := (clients s2)[c' := (clients s2 ! c')
                             \<lparr>notify_callbacks := List.insert HR_UUID (notify_callbacks (clients s2 ! c'))\<rparr>]\<rparr>)
               else connect_ble_except w (emit [Client_start_notify c' False] s2))"

text \<open>A call of \<open>connect_ble\<close> that nothing else interleaves with.\<close>

definition connect_ble :: "world \<Rightarrow> string \<Rightarrow> app_state \<Rightarrow> app_state" where
  "connect_ble w addr s =
     (case connect_ble_begin w addr s of (c, s') \<Rightarrow> connect_ble_resume w addr c s')"

definition disconnect_ble :: "world \<Rightarrow> app_state \<Rightarrow> app_state" where
  "disconnect_ble w s =
     (if session_connected s
      then broadcast w (Status ''Disconnected'')
             (client_disconnect (the (current_client s)) s)
      else s) \<lparr>current_client := None\<rparr>"

text \<open>
  Two calls of \<open>connect_ble\<close> from two viewers, the second one made while the first
  waits in \<open>connect\<close>; the first connection is established first.
\<close>

definition connect_ble_overlapping ::
    "world \<Rightarrow> string \<Rightarrow> string \<Rightarrow> app_state \<Rightarrow> app_state" where
  "connect_ble_overlapping w a b s =
     (case connect_ble_begin w a s of (ca, s1) \<Rightarrow>
      case connect_ble_begin w b s1 of (cb, s2) \<Rightarrow>
        connect_ble_resume w b cb (connect_ble_resume w a ca s2))"

subsection \<open>What arrives, one thing after the other\<close>

text \<open>
  The commands of \<open>websocket_endpoint\<close> (\<open>{"action": "connect", "address": ...}\<close>,
  \<open>{"action": "disconnect"}\<close>) and the notifications of the peripheral, each handled
  to its end before the next one. An exception of the notification handler stays with
  the caller of the callback.
\<close>

datatype event =
    Action_connect string
  | Action_disconnect
  | Notification "byte list"

fun step :: "world \<Rightarrow> event \<Rightarrow> app_state \<Rightarrow> app_state" where
  "step w (Action_connect addr) s = connect_ble w addr s"
| "step w Action_disconnect s = disconnect_ble w s"
| "step w (Notification data) s = snd (heart_rate_notification_handler w data s)"

fun run :: "(world \<times> event) list \<Rightarrow> app_state \<Rightarrow> app_state" where
  "run [] s = s"
| "run ((w, e) # rest) s = run rest (step w e s)"

definition connected_clients :: "app_state \<Rightarrow> nat list" where
  "connected_clients s =
     filter (\<lambda>i. is_connected (clients s ! i)) [0..<length (clients s)]"

definition single_session :: "app_state \<Rightarrow> bool" where
  \<comment> \<open>no client is connected except the one \<open>current_client\<close> refers to\<close>
  "single_session s =
     (case current_client s of
        None \<Rightarrow> connected_clients s = []
      | Some c \<Rightarrow> c < length (clients s) \<and> set (connected_clients s) \<subseteq> {c})"

text \<open>
  The client objects once the current client, if it is connected, has been
  disconnected: what \<open>connect_ble\<close> and \<open>disconnect_ble\<close> both begin with.
\<close>

definition clients_after_teardown :: "app_state \<Rightarrow> ble_client list" where
  "clients_after_teardown s =
     (if session_connected s
      then (clients s)[the (current_client s) :=
             (clients s ! the (current_client s))\<lparr>is_connected := False\<rparr>]
      else clients s)"

definition connected_addresses :: "app_state \<Rightarrow> string list" where
  "connected_addresses s = map (\<lambda>i. address (clients s ! i)) (connected_clients s)"

definition insert_attempts :: "effect list \<Rightarrow> (int \<times> string) list" where
  \<comment> \<open>the \<open>INSERT\<close>s tried in a trace, whether they succeeded or not\<close>
  "insert_attempts es =
     concat (map (\<lambda>e. case e of Insert_measurement v d ok \<Rightarrow> [(v, d)] | _ \<Rightarrow> []) es)"

definition all_ok :: world where
  "all_ok = \<lparr>send_json_ok = (\<lambda>_. True), db_ok = True, now = ''2024-01-01 10:00:00'',
     connect_ok = True, start_notify_ok = True, error_text = []\<rparr>"

subsection \<open>\<open>get_history\<close>\<close>

text \<open>
  The column \<open>timestamp\<close> holds what \<open>CURRENT_TIMESTAMP\<close> wrote when the row was
  inserted: the text \<open>YYYY-MM-DD HH:MM:SS\<close> of an instant, each field with leading
  zeros. An instant is the tuple of its six fields, year first, so that the order of
  the tuples is the order in time.
\<close>

type_synonym datetime = "nat \<times> nat \<times> nat \<times> nat \<times> nat \<times> nat"

definition digit :: "nat \<Rightarrow> char" where
  "digit n = char_of (48 + n)"

definition two_digits :: "nat \<Rightarrow> string" where
  "two_digits n = [digit (n div 10), digit (n mod 10)]"

definition four_digits :: "nat \<Rightarrow> string" where
  "four_digits n = two_digits (n div 100) @ two_digits (n mod 100)"

fun sql_datetime :: "datetime \<Rightarrow> string" where
  "sql_datetime (Y, M, D, h, m, s) =
     four_digits Y @ ''-'' @ two_digits M @ ''-'' @ two_digits D @ '' '' @
     two_digits h @ '':'' @ two_digits m @ '':'' @ two_digits s"

fun datetime_fits :: "datetime \<Rightarrow> bool" where
  \<comment> \<open>every field fits the width the text gives it\<close>
  "datetime_fits (Y, M, D, h, m, s) =
     (Y < 10000 \<and> M < 100 \<and> D < 100 \<and> h < 100 \<and> m < 100 \<and> s < 100)"

text \<open>
  The table is read with one of four \<open>SELECT\<close> statements. The SQL is modelled on
  the rows: \<open>strftime\<close> with the three formats on a timestamp of the form above
  (19 characters, so a format keeps a prefix of it), \<open>GROUP BY\<close> with \<open>AVG\<close> as one
  row for each distinct bucket, \<open>ORDER BY ... DESC\<close> in the order of the text, rows
  with equal keys staying in the order of the table, and \<open>LIMIT\<close>, for which SQLite
  takes a negative number as no bound. \<open>AVG\<close> is the exact quotient here, where
  SQLite computes a double. \<open>c.execute(query, (limit,))\<close> raises \<open>OverflowError\<close>
  for a \<open>limit\<close> that is not a signed 64-bit number, before anything is read.
\<close>

definition strftime_minute :: "string \<Rightarrow> string" where \<comment> \<open>\<open>'%Y-%m-%d %H:%M'\<close>\<close>
  "strftime_minute ts = take 16 ts"

definition strftime_hour :: "string \<Rightarrow> string" where \<comment> \<open>\<open>'%Y-%m-%d %H:00'\<close>\<close>
  "strftime_hour ts = take 13 ts @ '':00''"

definition strftime_day :: "string \<Rightarrow> string" where \<comment> \<open>\<open>'%Y-%m-%d'\<close>\<close>
  "strftime_day ts = take 10 ts"

definition sql_avg :: "int list \<Rightarrow> rat" where
  "sql_avg vs = of_int (sum_list vs) / of_nat (length vs)"

definition bucket_values :: "(string \<Rightarrow> string) \<Rightarrow> measurement list \<Rightarrow> string \<Rightarrow> int list" where
  "bucket_values bucket ms k = map hr_value (filter (\<lambda>m. bucket (timestamp m) = k) ms)"

definition group_by_avg :: "(string \<Rightarrow> string) \<Rightarrow> measurement list \<Rightarrow> (string \<times> rat) list" where
  "group_by_avg bucket ms =
     map (\<lambda>k. (k, sql_avg (bucket_values bucket ms k)))
       (remdups (map (\<lambda>m. bucket (timestamp m)) ms))"

definition order_by_desc :: "(string \<times> rat) list \<Rightarrow> (string \<times> rat) list" where
  \<comment> \<open>descending keys; rows with equal keys come out first inserted first\<close>
  "order_by_desc rows = rev (sort_key fst (rev rows))"

definition sql_limit :: "int \<Rightarrow> 'a list \<Rightarrow> 'a list" where
  "sql_limit n rows = (if n < 0 then rows else take (nat n) rows)"

definition sqlite_integer :: "int \<Rightarrow> bool" where
  "sqlite_integer n = (- (2 ^ 63) \<le> n \<and> n < 2 ^ 63)"

text \<open>Python's \<open>round\<close> with one argument: to the nearest integer, a half to the even one.\<close>

definition py_round :: "rat \<Rightarrow> int" where
  "py_round x =
     (let f = \<lfloor>x\<rfloor>; d = x - of_int f
      in if d < 1 / 2 then f
         else if 1 / 2 < d then f + 1
         else if even f then f else f + 1)"

definition get_history ::
    "string \<Rightarrow> int \<Rightarrow> measurement list \<Rightarrow> py_error + (string \<times> int) list" where
  "get_history period limit ms =
     (if \<not> sqlite_integer limit then Inl OverflowError
      else
        let rows =
          (if period = ''minute''
           then sql_limit limit (order_by_desc (group_by_avg strftime_minute ms))
           else if period = ''hour''
           then sql_limit limit (order_by_desc (group_by_avg strftime_hour ms))
           else if period = ''day''
           then sql_limit limit (order_by_desc (group_by_avg strftime_day ms))
           else sql_limit limit
                  (order_by_desc (map (\<lambda>m. (timestamp m, of_int (hr_value m))) ms)))
        in Inr (map (\<lambda>row. (fst row, py_round (snd row))) (rev rows)))"

definition most_recent :: "nat \<Rightarrow> 'a list \<Rightarrow> 'a list" where
  "most_recent n xs = drop (length xs - n) xs"

text \<open>
  The words of the specification for the aggregate query, to compare with. They speak
  of instants, not of text: the samples are pairs of an instant and a value; a
  timestamp is truncated to a granularity by clearing the finer fields; the groups are
  the distinct truncated instants; the \<open>n\<close> latest of them are returned, earliest
  first, each with the mean of its values rounded. The bucket is shown as the text of
  the truncated instant, up to the minutes, or up to the day for \<open>day\<close>.
\<close>

datatype granularity = Minute | Hour | Day

fun period_name :: "granularity \<Rightarrow> string" where
  "period_name Minute = ''minute''"
| "period_name Hour = ''hour''"
| "period_name Day = ''day''"

fun truncate_to :: "granularity \<Rightarrow> datetime \<Rightarrow> datetime" where
  "truncate_to Minute (Y, M, D, h, m, s) = (Y, M, D, h, m, 0)"
| "truncate_to Hour (Y, M, D, h, m, s) = (Y, M, D, h, 0, 0)"
| "truncate_to Day (Y, M, D, h, m, s) = (Y, M, D, 0, 0, 0)"

fun bucket_text :: "granularity \<Rightarrow> datetime \<Rightarrow> string" where
  "bucket_text Minute d = take 16 (sql_datetime d)"
| "bucket_text Hour d = take 16 (sql_datetime d)"
| "bucket_text Day d = take 10 (sql_datetime d)"

definition mean_at :: "granularity \<Rightarrow> (datetime \<times> int) list \<Rightarrow> datetime \<Rightarrow> rat" where
  "mean_at g samples d =
     of_int (\<Sum>x\<leftarrow>filter (\<lambda>x. truncate_to g (fst x) = d) samples. snd x)
       / of_nat (length (filter (\<lambda>x. truncate_to g (fst x) = d) samples))"

definition query_aggregate_spec ::
    "granularity \<Rightarrow> nat \<Rightarrow> (datetime \<times> int) list \<Rightarrow> (string \<times> int) list" where
  "query_aggregate_spec g n samples =
     map (\<lambda>d. (bucket_text g d, py_round (mean_at g samples d)))
       (most_recent n (sorted_list_of_set ((\<lambda>x. truncate_to g (fst x)) ` set samples)))"

text \<open>
  The table is as \<open>save_heart_rate\<close> fills it when row \<open>i\<close> has the timestamp of the
  instant \<open>dts ! i\<close>.
\<close>

definition stamped :: "measurement list \<Rightarrow> datetime list \<Rightarrow> bool" where
  "stamped ms dts =
     list_all2 (\<lambda>m dt. timestamp m = sql_datetime dt \<and> datetime_fits dt) ms dts"

text \<open>The table of the specification's example: 60, 70 and 80 within one minute.\<close>

definition three_in_a_minute :: "measurement list" where
  "three_in_a_minute =
    [\<lparr>row_id = 1, timestamp = ''2024-01-01 10:00:01'', hr_value = 60, device_address = ''AA''\<rparr>,
     \<lparr>row_id = 2, timestamp = ''2024-01-01 10:00:02'', hr_value = 70, device_address = ''AA''\<rparr>,
     \<lparr>row_id = 3, timestamp = ''2024-01-01 10:00:03'', hr_value = 80, device_address = ''AA''\<rparr>]"

text \<open>Three rows written within one second.\<close>

definition three_in_a_second :: "measurement list" where
  "three_in_a_second =
    [\<lparr>row_id = 1, timestamp = ''2024-01-01 10:00:01'', hr_value = 60, device_address = ''AA''\<rparr>,
     \<lparr>row_id = 2, timestamp = ''2024-01-01 10:00:01'', hr_value = 70, device_address = ''AA''\<rparr>,
     \<lparr>row_id = 3, timestamp = ''2024-01-01 10:00:01'', hr_value = 80, device_address = ''AA''\<rparr>]"

section \<open>Properties\<close>

subsection \<open>Auxiliary facts\<close>

lemma emit_simps:
  "active_connections (emit es s) = active_connections s"
  "clients (emit es s) = clients s"
  "current_client (emit es s) = current_client s"
  "current_hr (emit es s) = current_hr s"
  "measurements (emit es s) = measurements s"
  "trace (emit es s) = trace s @ es"
  by (simp_all add: emit_def)

lemma broadcast_loop_eq:
  "broadcast_loop w msg cs s = s\<lparr>trace := trace s @ concat (map (try_send_json w msg) cs)\<rparr>"
  by (induction cs arbitrary: s) (simp_all add: emit_def)

lemma broadcast_eq:
  "broadcast w msg s =
     s\<lparr>trace := trace s @ Broadcast msg # concat (map (try_send_json w msg) (active_connections s))\<rparr>"
  by (simp add: broadcast_def broadcast_loop_eq emit_def)

lemma broadcast_simps:
  "active_connections (broadcast w msg s) = active_connections s"
  "clients (broadcast w msg s) = clients s"
  "current_client (broadcast w msg s) = current_client s"
  "current_hr (broadcast w msg s) = current_hr s"
  "measurements (broadcast w msg s) = measurements s"
  by (simp_all add: broadcast_eq)

lemma send_attempts_append: "send_attempts (xs @ ys) = send_attempts xs @ send_attempts ys"
  by (simp add: send_attempts_def)

lemma deliveries_append: "deliveries (xs @ ys) = deliveries xs @ deliveries ys"
  by (simp add: deliveries_def)

lemma broadcast_errors_logged_append:
  "broadcast_errors_logged (xs @ ys) = broadcast_errors_logged xs @ broadcast_errors_logged ys"
  by (simp add: broadcast_errors_logged_def)

lemma send_attempts_try_send_json:
  "send_attempts (Broadcast msg # concat (map (try_send_json w msg) cs)) = map (\<lambda>c. (c, msg)) cs"
proof -
  have "send_attempts (concat (map (try_send_json w msg) cs)) = map (\<lambda>c. (c, msg)) cs"
    by (induction cs) (simp_all add: send_attempts_def try_send_json_def)
  then show ?thesis by (simp add: send_attempts_def)
qed

lemma deliveries_try_send_json:
  "deliveries (Broadcast msg # concat (map (try_send_json w msg) cs)) =
     map (\<lambda>c. (c, msg)) (filter (send_json_ok w) cs)"
proof -
  have "deliveries (concat (map (try_send_json w msg) cs)) =
          map (\<lambda>c. (c, msg)) (filter (send_json_ok w) cs)"
    by (induction cs) (simp_all add: deliveries_def try_send_json_def)
  then show ?thesis by (simp add: deliveries_def)
qed

lemma broadcast_errors_logged_try_send_json:
  "broadcast_errors_logged (Broadcast msg # concat (map (try_send_json w msg) cs)) =
     filter (\<lambda>c. \<not> send_json_ok w c) cs"
proof -
  have "broadcast_errors_logged (concat (map (try_send_json w msg) cs)) =
          filter (\<lambda>c. \<not> send_json_ok w c) cs"
    by (induction cs) (simp_all add: broadcast_errors_logged_def try_send_json_def)
  then show ?thesis by (simp add: broadcast_errors_logged_def)
qed

lemma count_list_try_send_json:
  "count_list (concat (map (try_send_json w msg) cs)) (Broadcast m) = 0"
  by (induction cs) (simp_all add: try_send_json_def)

lemma uint_word_cat_bytes:
  "uint (word_cat (hi :: byte) (lo :: byte) :: 16 word) = uint lo + 256 * uint hi"
proof -
  have lo: "uint lo < 256" using uint_bounded [of lo] by simp
  have hi: "uint hi < 256" using uint_bounded [of hi] by simp
  have "uint (word_cat hi lo :: 16 word) = (uint hi * 256 + uint lo) mod 65536"
    by (simp add: word_cat_eq uint_word_ariths uint_up_ucast is_up push_bit_eq_mult
        mult.commute mod_add_left_eq)
  also have "\<dots> = uint hi * 256 + uint lo"
    using lo hi by simp
  finally show ?thesis by simp
qed

lemma hr_val_of_range:
  assumes "hr_val_of data = Inr v"
  shows "0 \<le> v \<and> v \<le> 65535 \<and> (data ! 0 AND 1 = 0 \<longrightarrow> v \<le> 255)"
proof -
  have b1: "uint (data ! 1) < 256" using uint_bounded [of "data ! 1"] by simp
  have b2: "uint (word_cat (data ! 2) (data ! 1) :: 16 word) < 65536"
    using uint_bounded [of "word_cat (data ! 2) (data ! 1) :: 16 word"] by simp
  have two: "Suc (Suc 0) = 2" by simp
  show ?thesis using assms b1 b2
    by (auto simp: hr_val_of_def unpack_from_H_def Let_def two split: if_splits)
qed

lemma connect_ble_clients:
  "clients (connect_ble w addr s) =
     (if session_connected s
      then (clients s)[the (current_client s) :=
             (clients s ! the (current_client s))\<lparr>is_connected := False\<rparr>]
      else clients s)
     @ [\<lparr>address = addr, is_connected = connect_ok w,
         notify_callbacks = (if connect_ok w \<and> start_notify_ok w then [HR_UUID] else [])\<rparr>]"
  by (simp add: connect_ble_def connect_ble_begin_def connect_ble_resume_def Let_def
      connect_ble_except_def client_disconnect_def broadcast_simps emit_simps nth_append
      list_update_append)

lemma connect_ble_current_client:
  "current_client (connect_ble w addr s) =
     (if connect_ok w \<and> start_notify_ok w then Some (length (clients s)) else None)"
  by (simp add: connect_ble_def connect_ble_begin_def connect_ble_resume_def Let_def
      connect_ble_except_def client_disconnect_def broadcast_simps emit_simps)

lemma disconnect_ble_clients:
  "clients (disconnect_ble w s) =
     (if session_connected s
      then (clients s)[the (current_client s) :=
             (clients s ! the (current_client s))\<lparr>is_connected := False\<rparr>]
      else clients s)"
  by (simp add: disconnect_ble_def client_disconnect_def broadcast_simps emit_simps)

lemma handler_clients:
  "clients (snd (heart_rate_notification_handler w data s)) = clients s"
  "current_client (snd (heart_rate_notification_handler w data s)) = current_client s"
  by (simp_all add: heart_rate_notification_handler_def Let_def broadcast_simps emit_simps
      save_heart_rate_def split: sum.split option.split)

lemma set_connected_clients:
  "set (connected_clients s) = {i. i < length (clients s) \<and> is_connected (clients s ! i)}"
  by (auto simp: connected_clients_def)

lemma single_session_iff:
  "single_session s \<longleftrightarrow>
     (\<forall>i < length (clients s). is_connected (clients s ! i) \<longrightarrow> current_client s = Some i)
     \<and> (\<forall>c. current_client s = Some c \<longrightarrow> c < length (clients s))"
proof (cases "current_client s")
  case None
  then show ?thesis
    by (auto simp: single_session_def connected_clients_def filter_empty_conv)
next
  case (Some c)
  have "set (connected_clients s) \<subseteq> {c} \<longleftrightarrow>
          (\<forall>i < length (clients s). is_connected (clients s ! i) \<longrightarrow> c = i)"
    unfolding set_connected_clients by blast
  then show ?thesis
    using Some by (simp add: single_session_def) blast
qed

lemma single_sessionD:
  "single_session s \<Longrightarrow> i < length (clients s) \<Longrightarrow> is_connected (clients s ! i)
     \<Longrightarrow> current_client s = Some i"
  unfolding single_session_iff by blast

lemma length_clients_after_teardown [simp]:
  "length (clients_after_teardown s) = length (clients s)"
  by (simp add: clients_after_teardown_def)

lemma none_connected_after_teardown:
  assumes inv: "single_session s" and i: "i < length (clients s)"
  shows "\<not> is_connected (clients_after_teardown s ! i)"
proof
  assume con: "is_connected (clients_after_teardown s ! i)"
  show False
  proof (cases "session_connected s")
    case True
    then obtain c where c: "current_client s = Some c"
      by (cases "current_client s") (simp_all add: session_connected_def)
    have upd: "clients_after_teardown s = (clients s)[c := (clients s ! c)\<lparr>is_connected := False\<rparr>]"
      using True c by (simp add: clients_after_teardown_def)
    show False
    proof (cases "i = c")
      case True
      then show False using con i by (simp add: upd)
    next
      case False
      then have "is_connected (clients s ! i)" using con by (simp add: upd)
      with inv i have "current_client s = Some i" by (rule single_sessionD)
      then show False using c False by simp
    qed
  next
    case False
    then have old: "is_connected (clients s ! i)"
      using con by (simp add: clients_after_teardown_def)
    with inv i have "current_client s = Some i" by (rule single_sessionD)
    then have "session_connected s"
      using old by (simp add: session_connected_def)
    then show False using False by simp
  qed
qed

lemma connect_ble_clients':
  "clients (connect_ble w addr s) =
     clients_after_teardown s
     @ [\<lparr>address = addr, is_connected = connect_ok w,
         notify_callbacks = (if connect_ok w \<and> start_notify_ok w then [HR_UUID] else [])\<rparr>]"
  by (simp add: connect_ble_clients clients_after_teardown_def)

lemma disconnect_ble_clients':
  "clients (disconnect_ble w s) = clients_after_teardown s"
  by (simp add: disconnect_ble_clients clients_after_teardown_def)

lemma single_session_connect_ble:
  assumes inv: "single_session s" and ok: "connect_ok w \<longrightarrow> start_notify_ok w"
  shows "single_session (connect_ble w addr s)"
  unfolding single_session_iff
proof (intro conjI allI impI)
  fix i
  assume i: "i < length (clients (connect_ble w addr s))"
    and con: "is_connected (clients (connect_ble w addr s) ! i)"
  have "\<not> i < length (clients s)"
  proof
    assume old: "i < length (clients s)"
    then have "is_connected (clients_after_teardown s ! i)"
      using con by (simp add: connect_ble_clients' nth_append)
    then show False
      using none_connected_after_teardown [OF inv old] by simp
  qed
  then have n: "i = length (clients s)"
    using i by (simp add: connect_ble_clients')
  then have "connect_ok w"
    using con by (simp add: connect_ble_clients' nth_append)
  then show "current_client (connect_ble w addr s) = Some i"
    using ok n by (simp add: connect_ble_current_client)
next
  fix c
  assume "current_client (connect_ble w addr s) = Some c"
  then show "c < length (clients (connect_ble w addr s))"
    by (simp add: connect_ble_current_client connect_ble_clients' split: if_splits)
qed

lemma single_session_disconnect_ble:
  assumes inv: "single_session s"
  shows "single_session (disconnect_ble w s)"
  unfolding single_session_iff
proof (intro conjI allI impI)
  fix i
  assume "i < length (clients (disconnect_ble w s))"
    and "is_connected (clients (disconnect_ble w s) ! i)"
  then have "i < length (clients s)" and "is_connected (clients_after_teardown s ! i)"
    by (simp_all add: disconnect_ble_clients')
  then show "current_client (disconnect_ble w s) = Some i"
    using none_connected_after_teardown [OF inv, of i] by simp
next
  fix c
  assume "current_client (disconnect_ble w s) = Some c"
  then show "c < length (clients (disconnect_ble w s))"
    by (simp add: disconnect_ble_def)
qed

lemma single_session_handler:
  assumes "single_session s"
  shows "single_session (snd (heart_rate_notification_handler w data s))"
  using assms unfolding single_session_iff handler_clients .

lemma single_session_step:
  "single_session s \<Longrightarrow> connect_ok w \<longrightarrow> start_notify_ok w \<Longrightarrow> single_session (step w e s)"
  by (cases e)
     (simp_all add: single_session_connect_ble single_session_disconnect_ble
        single_session_handler)

lemma single_session_run:
  "single_session s \<Longrightarrow> list_all (\<lambda>(w, e). connect_ok w \<longrightarrow> start_notify_ok w) evs
     \<Longrightarrow> single_session (run evs s)"
proof (induction evs arbitrary: s)
  case Nil
  then show ?case by simp
next
  case (Cons we evs)
  obtain w e where we: "we = (w, e)" by (cases we)
  from Cons.prems have ok: "connect_ok w \<longrightarrow> start_notify_ok w"
    and rest: "list_all (\<lambda>(w, e). connect_ok w \<longrightarrow> start_notify_ok w) evs"
    by (simp_all add: we)
  have "single_session (step w e s)"
    using Cons.prems(1) ok by (rule single_session_step)
  then have "single_session (run evs (step w e s))"
    using rest by (rule Cons.IH)
  then show ?case by (simp add: we)
qed

lemma connected_clients_connect_ble:
  assumes "single_session s" and "connect_ok w" and "start_notify_ok w"
  shows "connected_clients (connect_ble w addr s) = [length (clients s)]"
proof -
  let ?n = "length (clients s)"
  let ?cs = "clients (connect_ble w addr s)"
  have len: "length ?cs = Suc ?n"
    by (simp add: connect_ble_clients')
  have new: "is_connected (?cs ! ?n)"
    using assms(2) by (simp add: connect_ble_clients' nth_append)
  have old: "\<not> is_connected (?cs ! i)" if "i < ?n" for i
    using none_connected_after_teardown [OF assms(1) that] that
    by (simp add: connect_ble_clients' nth_append)
  have "filter (\<lambda>i. is_connected (?cs ! i)) [0..<?n] = []"
    using old by (simp add: filter_empty_conv)
  then show ?thesis
    using new by (simp add: connected_clients_def len)
qed

lemma connect_ble_trace_connected:
  assumes "session_connected s"
  shows "\<exists>rest. trace (connect_ble w addr s) =
           trace s @ Client_disconnect (the (current_client s))
             # Broadcast (Status (''Connecting to '' @ addr @ ''...'')) # rest"
  using assms
  by (simp add: connect_ble_def connect_ble_begin_def connect_ble_resume_def Let_def
      connect_ble_except_def client_disconnect_def broadcast_eq emit_def)

lemma insort_key_map:
  "insort_key f (g x) (map g ys) = map g (insort_key (\<lambda>x. f (g x)) x ys)"
  by (induction ys) simp_all

lemma sort_key_map:
  "sort_key f (map g xs) = map g (sort_key (\<lambda>x. f (g x)) xs)"
  by (induction xs) (simp_all add: insort_key_map)

lemma py_round_nearest: "\<bar>of_int (py_round x) - x\<bar> \<le> 1 / 2"
proof -
  define f where "f = \<lfloor>x\<rfloor>"
  define d where "d = x - of_int f"
  have d: "0 \<le> d" "d < 1" unfolding d_def f_def by linarith+
  have down: "\<bar>of_int f - x\<bar> = d" using d by (simp add: d_def)
  have up: "\<bar>of_int (f + 1) - x\<bar> = 1 - d" using d by (simp add: d_def)
  have r: "py_round x =
      (if d < 1 / 2 then f else if 1 / 2 < d then f + 1 else if even f then f else f + 1)"
    by (simp add: py_round_def Let_def f_def d_def)
  consider "d < 1 / 2" | "1 / 2 < d" | "d = 1 / 2" by linarith
  then show ?thesis
  proof cases
    case 1
    then have "py_round x = f" by (simp add: r)
    then show ?thesis using down 1 by simp
  next
    case 2
    then have "py_round x = f + 1" by (simp add: r)
    then show ?thesis using up 2 by simp
  next
    case 3
    then have "py_round x = f \<or> py_round x = f + 1" by (simp add: r)
    then show ?thesis using down up 3 by auto
  qed
qed


lemma sorted_wrt_most_recent:
  assumes "sorted_wrt R xs"
  shows "sorted_wrt R (most_recent n xs)"
proof -
  have "sorted_wrt R (take (length xs - n) xs @ drop (length xs - n) xs)"
    using assms by simp
  then show ?thesis
    unfolding most_recent_def sorted_wrt_append by blast
qed

lemma py_round_half:
  assumes "x - of_int \<lfloor>x\<rfloor> = 1 / 2"
  shows "even (py_round x)"
  using assms by (simp add: py_round_def Let_def)

lemma length_two_digits [simp]: "length (two_digits n) = 2"
  by (simp add: two_digits_def)

lemma length_four_digits [simp]: "length (four_digits n) = 4"
  by (simp add: four_digits_def)

lemma digit_less: "a < 10 \<Longrightarrow> b < 10 \<Longrightarrow> (digit a < digit b) = (a < b)"
  by (simp add: digit_def less_char_def)

lemma digit_eq: "a < 10 \<Longrightarrow> b < 10 \<Longrightarrow> (digit a = digit b) = (a = b)"
  using digit_less [of a b] digit_less [of b a] by (auto simp: digit_def)

lemma append_less_same_length:
  "length a = length b \<Longrightarrow> (a @ c < b @ d) = (a < b \<or> a = b \<and> c < (d :: 'a :: linorder list))"
  by (induction a b rule: list_induct2) auto

lemma append_le_same_length:
  "length a = length b \<Longrightarrow> (a @ c \<le> b @ d) = (a < b \<or> a = b \<and> c \<le> (d :: 'a :: linorder list))"
  by (induction a b rule: list_induct2) auto

lemma lex_less:
  assumes "ra < k" and "rb < k"
  shows "(qa < qb \<or> qa = qb \<and> ra < rb) = (k * qa + ra < k * qb + (rb :: nat))"
proof -
  have up: "k * x + r < k * y + r'" if "x < y" "r < k" for x y r r' :: nat
  proof -
    have "k * Suc x \<le> k * y" using that(1) by (intro mult_le_mono2) simp
    then show ?thesis using that(2) by simp
  qed
  consider "qa < qb" | "qa = qb" | "qb < qa" by linarith
  then show ?thesis
  proof cases
    case 1
    then show ?thesis using up [OF 1 assms(1), of rb] by simp
  next
    case 2
    then show ?thesis by simp
  next
    case 3
    have "k * qb + rb < k * qa + ra" using 3 assms(2) by (rule up)
    then show ?thesis using 3 by simp
  qed
qed

lemma lex_eq:
  assumes "ra < k" and "rb < k"
  shows "(qa = qb \<and> ra = rb) = (k * qa + ra = k * qb + (rb :: nat))"
proof -
  have "(k * qa + ra = k * qb + rb) =
          (\<not> k * qa + ra < k * qb + rb \<and> \<not> k * qb + rb < k * qa + ra)"
    by (simp add: not_less order.eq_iff)
  also have "\<dots> = (\<not> (qa < qb \<or> qa = qb \<and> ra < rb) \<and> \<not> (qb < qa \<or> qb = qa \<and> rb < ra))"
    by (simp only: lex_less [OF assms] lex_less [OF assms(2) assms(1)])
  also have "\<dots> = (qa = qb \<and> ra = rb)"
    by auto
  finally show ?thesis by simp
qed

lemmas lex10 = lex_less [where k = 10]
lemmas lex100 = lex_less [where k = 100]
lemmas eq10 = lex_eq [where k = 10]
lemmas eq100 = lex_eq [where k = 100]

lemma two_digits_less:
  assumes "a < 100" and "b < 100"
  shows "(two_digits a < two_digits b) = (a < b)"
proof -
  have d: "a div 10 < 10" "b div 10 < 10" "a mod 10 < 10" "b mod 10 < 10"
    using assms by simp_all
  have "(two_digits a < two_digits b) =
          (a div 10 < b div 10 \<or> a div 10 = b div 10 \<and> a mod 10 < b mod 10)"
    using d by (simp add: two_digits_def digit_less digit_eq)
  also have "\<dots> = (10 * (a div 10) + a mod 10 < 10 * (b div 10) + b mod 10)"
    using d by (simp only: lex10)
  also have "\<dots> = (a < b)" by simp
  finally show ?thesis .
qed

lemma two_digits_eq:
  assumes "a < 100" and "b < 100"
  shows "(two_digits a = two_digits b) = (a = b)"
proof -
  have d: "a div 10 < 10" "b div 10 < 10" "a mod 10 < 10" "b mod 10 < 10"
    using assms by simp_all
  have "(two_digits a = two_digits b) = (a div 10 = b div 10 \<and> a mod 10 = b mod 10)"
    using d by (simp add: two_digits_def digit_eq)
  also have "\<dots> = (10 * (a div 10) + a mod 10 = 10 * (b div 10) + b mod 10)"
    using d by (simp only: eq10)
  also have "\<dots> = (a = b)" by simp
  finally show ?thesis .
qed

lemma two_digits_le:
  "a < 100 \<Longrightarrow> b < 100 \<Longrightarrow> (two_digits a \<le> two_digits b) = (a \<le> b)"
  by (simp add: le_less two_digits_less two_digits_eq)

lemma four_digits_less:
  assumes "a < 10000" and "b < 10000"
  shows "(four_digits a < four_digits b) = (a < b)"
proof -
  have d: "a div 100 < 100" "b div 100 < 100" "a mod 100 < 100" "b mod 100 < 100"
    using assms by simp_all
  have "(four_digits a < four_digits b) =
          (a div 100 < b div 100 \<or> a div 100 = b div 100 \<and> a mod 100 < b mod 100)"
    using d by (simp add: four_digits_def append_less_same_length two_digits_less two_digits_eq)
  also have "\<dots> = (100 * (a div 100) + a mod 100 < 100 * (b div 100) + b mod 100)"
    using d by (simp only: lex100)
  also have "\<dots> = (a < b)" by simp
  finally show ?thesis .
qed

lemma four_digits_eq:
  assumes "a < 10000" and "b < 10000"
  shows "(four_digits a = four_digits b) = (a = b)"
proof -
  have d: "a div 100 < 100" "b div 100 < 100" "a mod 100 < 100" "b mod 100 < 100"
    using assms by simp_all
  have "(four_digits a = four_digits b) = (a div 100 = b div 100 \<and> a mod 100 = b mod 100)"
    using d by (simp add: four_digits_def two_digits_eq)
  also have "\<dots> = (100 * (a div 100) + a mod 100 = 100 * (b div 100) + b mod 100)"
    using d by (simp only: eq100)
  also have "\<dots> = (a = b)" by simp
  finally show ?thesis .
qed

lemma sql_datetime_le:
  assumes "datetime_fits a" and "datetime_fits b"
  shows "(sql_datetime a \<le> sql_datetime b) = (a \<le> b)"
proof -
  obtain Y M D h m s where a: "a = (Y, M, D, h, m, s)" by (cases a)
  obtain Y' M' D' h' m' s' where b: "b = (Y', M', D', h', m', s')" by (cases b)
  show ?thesis
    using assms unfolding a b
    by (simp add: append_le_same_length four_digits_less four_digits_eq
        two_digits_less two_digits_eq two_digits_le) (auto simp: less_le)
qed

lemma length_sql_datetime [simp]: "length (sql_datetime d) = 19"
  by (cases d) simp

lemma two_digits_0: "two_digits 0 = ''00''"
  by code_simp

lemma strftime_truncate:
  "strftime_minute (sql_datetime dt) = bucket_text Minute (truncate_to Minute dt)"
  "strftime_hour (sql_datetime dt) = bucket_text Hour (truncate_to Hour dt)"
  "strftime_day (sql_datetime dt) = bucket_text Day (truncate_to Day dt)"
  by (cases dt; simp add: strftime_minute_def strftime_hour_def strftime_day_def two_digits_0)+

lemma datetime_fits_truncate_to: "datetime_fits dt \<Longrightarrow> datetime_fits (truncate_to g dt)"
  by (cases dt; cases g) simp_all

lemma bucket_text_le:
  assumes "datetime_fits a" and "datetime_fits b"
  shows "(bucket_text g (truncate_to g a) \<le> bucket_text g (truncate_to g b))
           = (truncate_to g a \<le> truncate_to g b)"
proof -
  obtain Y M D h m s where a: "a = (Y, M, D, h, m, s)" by (cases a)
  obtain Y' M' D' h' m' s' where b: "b = (Y', M', D', h', m', s')" by (cases b)
  show ?thesis
    using assms unfolding a b
    by (cases g; simp add: append_le_same_length four_digits_less four_digits_eq
        two_digits_less two_digits_eq two_digits_le) (auto simp: less_le)
qed

lemma sorted_list_of_set_image:
  fixes L :: "'a :: linorder \<Rightarrow> 'b :: linorder"
  assumes fin: "finite S"
    and emb: "\<And>x y. x \<in> S \<Longrightarrow> y \<in> S \<Longrightarrow> (L x \<le> L y) = (x \<le> y)"
  shows "sorted_list_of_set (L ` S) = map L (sorted_list_of_set S)"
proof -
  let ?xs = "sorted_list_of_set S"
  have set: "set ?xs = S" using fin by simp
  have inj: "inj_on L S"
  proof (rule inj_onI)
    fix x y assume "x \<in> S" "y \<in> S" "L x = L y"
    then have "x \<le> y" "y \<le> x" using emb [of x y] emb [of y x] by simp_all
    then show "x = y" by simp
  qed
  have "sorted_wrt (\<lambda>x y. L x \<le> L y) ?xs"
  proof (rule sorted_wrt_mono_rel [of ?xs "(\<le>)"])
    show "sorted_wrt (\<le>) ?xs" by simp
  next
    fix x y assume "x \<in> set ?xs" "y \<in> set ?xs" "x \<le> y"
    then show "L x \<le> L y" using emb [of x y] set by simp
  qed
  then have s: "sorted (map L ?xs)" by (simp add: sorted_map)
  have d: "distinct (map L ?xs)"
    using inj set by (simp add: distinct_map)
  have e: "set (map L ?xs) = L ` S" using set by simp
  have "sorted_list_of_set (L ` S) = map L ?xs"
  proof (rule sorted_distinct_set_unique)
    show "sorted (sorted_list_of_set (L ` S))" by simp
    show "distinct (sorted_list_of_set (L ` S))" by simp
    show "sorted (map L ?xs)" by (rule s)
    show "distinct (map L ?xs)" by (rule d)
    show "set (sorted_list_of_set (L ` S)) = set (map L ?xs)"
      using fin e by simp
  qed
  then show ?thesis .
qed

lemma stamped_fits: "stamped ms dts \<Longrightarrow> dt \<in> set dts \<Longrightarrow> datetime_fits dt"
  unfolding stamped_def by (induction ms dts rule: list_all2_induct) auto

lemma stamped_buckets:
  assumes BL: "\<And>dt. datetime_fits dt \<Longrightarrow> B (sql_datetime dt) = L (T dt)"
    and st: "stamped ms dts"
  shows "map (\<lambda>m. B (timestamp m)) ms = map (\<lambda>dt. L (T dt)) dts"
  using st unfolding stamped_def
  by (induction ms dts rule: list_all2_induct) (simp_all add: BL)

lemma stamped_values:
  assumes BL: "\<And>dt. datetime_fits dt \<Longrightarrow> B (sql_datetime dt) = L (T dt)"
    and eq: "\<And>dt. datetime_fits dt \<Longrightarrow> (L (T dt) = L d) = (T dt = d)"
    and st: "stamped ms dts"
  shows "bucket_values B ms (L d) =
           map snd (filter (\<lambda>x. T (fst x) = d) (zip dts (map hr_value ms)))"
  using st unfolding stamped_def bucket_values_def
  by (induction ms dts rule: list_all2_induct) (simp_all add: BL eq)

lemma aggregate_by_instant:
  assumes BL: "\<And>dt. datetime_fits dt \<Longrightarrow> B (sql_datetime dt) = L (T dt)"
    and emb: "\<And>a b. datetime_fits a \<Longrightarrow> datetime_fits b \<Longrightarrow>
                (L (T a) \<le> L (T b)) = (T a \<le> T b)"
    and st: "stamped ms dts"
  shows "map (\<lambda>k. (k, py_round (sql_avg (bucket_values B ms k))))
           (most_recent n (sorted_list_of_set ((\<lambda>m. B (timestamp m)) ` set ms)))
         = map (\<lambda>d. (L d, py_round (sql_avg
                  (map snd (filter (\<lambda>x. T (fst x) = d) (zip dts (map hr_value ms)))))))
             (most_recent n (sorted_list_of_set (T ` set dts)))"
proof -
  let ?S = "T ` set dts"
  have fits: "datetime_fits dt" if "dt \<in> set dts" for dt
    using st that by (rule stamped_fits)
  have emb': "(L x \<le> L y) = (x \<le> y)" if "x \<in> ?S" "y \<in> ?S" for x y
    using that emb fits by auto
  have eq': "(L x = L y) = (x = y)" if "x \<in> ?S" "y \<in> ?S" for x y
    using emb' [OF that] emb' [OF that(2) that(1)] by auto
  have "(\<lambda>m. B (timestamp m)) ` set ms = set (map (\<lambda>m. B (timestamp m)) ms)" by simp
  also have "\<dots> = set (map (\<lambda>dt. L (T dt)) dts)"
    by (simp only: stamped_buckets [of B L T, OF BL st])
  also have "\<dots> = L ` ?S" by auto
  finally have img: "(\<lambda>m. B (timestamp m)) ` set ms = L ` ?S" .
  have srt: "sorted_list_of_set (L ` ?S) = map L (sorted_list_of_set ?S)"
    by (rule sorted_list_of_set_image) (simp_all add: emb')
  have mr: "most_recent n (map L xs) = map L (most_recent n xs)" for xs
    by (simp add: most_recent_def drop_map)
  have sub: "set (most_recent n (sorted_list_of_set ?S)) \<subseteq> ?S"
    using set_drop_subset [of "length (sorted_list_of_set ?S) - n" "sorted_list_of_set ?S"]
    by (simp add: most_recent_def)
  have val: "bucket_values B ms (L d) =
           map snd (filter (\<lambda>x. T (fst x) = d) (zip dts (map hr_value ms)))"
    if dS: "d \<in> ?S" for d
  proof (rule stamped_values [of B L T, OF BL _ st])
    fix dt assume "datetime_fits dt"
    show "datetime_fits dt" by fact
  next
    fix dt assume f: "datetime_fits dt"
    obtain d0 where d0: "d0 \<in> set dts" "d = T d0" using dS by blast
    have "(L (T dt) \<le> L (T d0)) = (T dt \<le> T d0)" "(L (T d0) \<le> L (T dt)) = (T d0 \<le> T dt)"
      using emb f fits [OF d0(1)] by simp_all
    then show "(L (T dt) = L d) = (T dt = d)" unfolding d0(2) by auto
  qed
  show ?thesis
    unfolding img srt mr
    using sub by (auto simp: val)
qed

lemma rev_sql_limit_rev:
  "0 \<le> n \<Longrightarrow> rev (sql_limit n (rev xs)) = most_recent (nat n) xs"
  by (simp add: sql_limit_def most_recent_def rev_take)

lemma order_by_desc_map:
  "order_by_desc (map g xs) = rev (map g (sort_key (\<lambda>x. fst (g x)) (rev xs)))"
  by (simp add: order_by_desc_def sort_key_map rev_map)

lemma order_by_desc_group_by_avg:
  "order_by_desc (group_by_avg bucket ms) =
     rev (map (\<lambda>k. (k, sql_avg (bucket_values bucket ms k)))
            (sorted_list_of_set ((\<lambda>m. bucket (timestamp m)) ` set ms)))"
proof -
  let ?ks = "remdups (map (\<lambda>m. bucket (timestamp m)) ms)"
  have "sorted_list_of_set (set (rev ?ks)) = sort (remdups (rev ?ks))"
    by (rule sorted_list_of_set_sort_remdups)
  also have "remdups (rev ?ks) = rev ?ks"
    by (rule distinct_remdups_id) simp
  finally have "sort (rev ?ks) = sorted_list_of_set ((\<lambda>m. bucket (timestamp m)) ` set ms)"
    by simp
  then show ?thesis
    by (simp add: group_by_avg_def order_by_desc_map)
qed

lemma aggregate_rows:
  "0 \<le> limit \<Longrightarrow>
   map (\<lambda>row. (fst row, py_round (snd row)))
     (rev (sql_limit limit (order_by_desc (group_by_avg bucket ms))))
   = map (\<lambda>k. (k, py_round (sql_avg (bucket_values bucket ms k))))
       (most_recent (nat limit) (sorted_list_of_set ((\<lambda>m. bucket (timestamp m)) ` set ms)))"
  by (simp add: order_by_desc_group_by_avg rev_sql_limit_rev most_recent_def drop_map)

lemma stamped_length: "stamped ms dts \<Longrightarrow> length ms = length dts"
  by (simp add: stamped_def list_all2_lengthD)

lemma get_history_period_name:
  assumes "0 \<le> limit" and "limit < 2 ^ 63"
  shows "get_history (period_name g) limit ms =
     Inr (map (\<lambda>row. (fst row, py_round (snd row)))
       (rev (sql_limit limit (order_by_desc (group_by_avg
          (case g of Minute \<Rightarrow> strftime_minute | Hour \<Rightarrow> strftime_hour | Day \<Rightarrow> strftime_day) ms)))))"
  using assms by (cases g) (simp_all add: get_history_def sqlite_integer_def Let_def)

subsection \<open>One session at a time\<close>

text \<open>
  C1, as the code has it. Take a state in which no client is connected except the
  one \<open>current_client\<close> refers to, and let commands and notifications be handled one
  after the other, none of them a connection attempt that fails at \<open>start_notify\<close>
  after \<open>connect\<close> has succeeded. Then the same holds afterwards. A call of
  \<open>connect_ble\<close> that succeeds leaves exactly one connected client, the new one,
  bound to the address asked for and referred to by \<open>current_client\<close>. If the
  current client is connected when \<open>connect_ble\<close> is called, it is disconnected
  before the status "Connecting to ..." is broadcast.
\<close>

theorem connect_ble_single_session:
  assumes "single_session s"
    and "list_all (\<lambda>(w, e). connect_ok w \<longrightarrow> start_notify_ok w) evs"
  shows "single_session (run evs s)
    \<and> (connect_ok w \<and> start_notify_ok w \<longrightarrow>
         connected_clients (connect_ble w addr (run evs s)) = [length (clients (run evs s))]
         \<and> current_client (connect_ble w addr (run evs s)) = Some (length (clients (run evs s)))
         \<and> connected_addresses (connect_ble w addr (run evs s)) = [addr])
    \<and> (session_connected (run evs s) \<longrightarrow>
         (\<exists>rest. trace (connect_ble w addr (run evs s)) =
            trace (run evs s) @ Client_disconnect (the (current_client (run evs s)))
              # Broadcast (Status (''Connecting to '' @ addr @ ''...'')) # rest))"
proof -
  have inv: "single_session (run evs s)"
    using assms by (rule single_session_run)
  have one: "connected_clients (connect_ble w addr (run evs s)) = [length (clients (run evs s))]"
    if "connect_ok w" "start_notify_ok w"
    using inv that by (rule connected_clients_connect_ble)
  have bound: "connected_addresses (connect_ble w addr (run evs s)) = [addr]"
    if "connect_ok w" "start_notify_ok w"
    using that by (simp add: connected_addresses_def one connect_ble_clients nth_append)
  show ?thesis
    using inv one bound connect_ble_trace_connected [of "run evs s" w addr]
    by (simp add: connect_ble_current_client)
qed

text \<open>\<open>connect("X")\<close>, then \<open>connect("Y")\<close>, both successful.\<close>

theorem connect_ble_single_session_witness:
  "single_session init_state
   \<and> list_all (\<lambda>(w, e). connect_ok w \<longrightarrow> start_notify_ok w) [(all_ok, Action_connect ''X'')]
   \<and> connected_addresses
       (connect_ble all_ok ''Y'' (run [(all_ok, Action_connect ''X'')] init_state)) = [''Y'']
   \<and> current_client
       (connect_ble all_ok ''Y'' (run [(all_ok, Action_connect ''X'')] init_state)) = Some 1"
proof -
  have i: "single_session init_state"
    by (simp add: single_session_def connected_clients_def init_state_def)
  have e: "list_all (\<lambda>(w, e). connect_ok w \<longrightarrow> start_notify_ok w) [(all_ok, Action_connect ''X'')]"
    by (simp add: all_ok_def)
  have ok: "connect_ok all_ok \<and> start_notify_ok all_ok"
    by (simp add: all_ok_def)
  have l: "length (clients (run [(all_ok, Action_connect ''X'')] init_state)) = 1"
    by (simp add: connect_ble_clients init_state_def)
  show ?thesis
    using connect_ble_single_session [OF i e, of all_ok "''Y''"] ok i e l by simp
qed

text \<open>
  The claim fails when \<open>connect("Y")\<close> is called while the session with X is still
  being connected: \<open>is_connected\<close> of X is false then, so X is not disconnected, and
  both clients end up connected.
\<close>

theorem connect_ble_overlapping_counterexample:
  "connected_addresses (connect_ble_overlapping all_ok ''X'' ''Y'' init_state) = [''X'', ''Y'']"
  by (simp add: connected_addresses_def connected_clients_def connect_ble_overlapping_def
      connect_ble_begin_def connect_ble_resume_def Let_def session_connected_def
      init_state_def all_ok_def broadcast_eq emit_def upt_rec)

text \<open>
  Why the theorem asks that no attempt fails at \<open>start_notify\<close> once \<open>connect\<close>
  has succeeded: the \<open>except\<close> branch clears \<open>current_client\<close> and leaves that
  client connected, so the next \<open>connect_ble\<close> has nothing to disconnect.
\<close>

lemma connect_ble_start_notify_failure:
  "connected_addresses
     (run [(all_ok\<lparr>start_notify_ok := False\<rparr>, Action_connect ''X''),
           (all_ok, Action_connect ''Y'')] init_state) = [''X'', ''Y'']"
  by (simp add: connected_addresses_def connected_clients_def connect_ble_clients
      session_connected_def connect_ble_current_client init_state_def all_ok_def upt_rec)

subsection \<open>Decoding\<close>

text \<open>
  C2. A payload of at least two bytes whose flag byte has bit 0 clear decodes to its
  byte 1, a number from 0 to 255. A payload of at least three bytes whose flag byte
  has bit 0 set decodes to byte 1 plus 256 times byte 2, the little-endian unsigned
  16-bit number of those two bytes.
\<close>

theorem hr_val_of_formats:
  "(2 \<le> length data \<and> data ! 0 AND 1 = 0 \<longrightarrow>
      hr_val_of data = Inr (uint (data ! 1))
      \<and> 0 \<le> uint (data ! 1) \<and> uint (data ! 1) \<le> 255)
   \<and> (3 \<le> length data \<and> data ! 0 AND 1 = 1 \<longrightarrow>
      hr_val_of data = Inr (uint (data ! 1) + 256 * uint (data ! 2))
      \<and> 0 \<le> uint (data ! 1) + 256 * uint (data ! 2)
      \<and> uint (data ! 1) + 256 * uint (data ! 2) \<le> 65535)"
proof -
  have b1: "uint (data ! 1) < 256" using uint_bounded [of "data ! 1"] by simp
  have b2: "uint (data ! 2) < 256" using uint_bounded [of "data ! 2"] by simp
  have two: "Suc (Suc 0) = 2" by simp
  show ?thesis
    using b1 b2
    by (auto simp: hr_val_of_def unpack_from_H_def uint_word_cat_bytes Let_def two)
qed

theorem hr_val_of_formats_witness:
  "2 \<le> length [0, 72 :: byte] \<and> [0, 72 :: byte] ! 0 AND 1 = 0
   \<and> hr_val_of [0, 72] = Inr 72
   \<and> 3 \<le> length [1, 44, 1 :: byte] \<and> [1, 44, 1 :: byte] ! 0 AND 1 = 1
   \<and> hr_val_of [1, 44, 1] = Inr 300"
  using hr_val_of_formats [of "[0, 72]"] hr_val_of_formats [of "[1, 44, 1]"]
  by simp

text \<open>
  C3, as the code has it. A payload too short for the width its flag byte selects
  (fewer than two bytes for the 8-bit format, fewer than three for the 16-bit one),
  and the empty payload, make the handler raise before it assigns anything:
  \<open>IndexError\<close> for the empty payload and the 8-bit format, \<open>struct.error\<close> for
  the 16-bit format. The exception leaves the handler, which logs nothing itself, and
  the whole state is as before: the sample is dropped, and the client reference and
  its connection are untouched.
\<close>

theorem handler_underlength:
  "(length data < 1 \<or> (data ! 0 AND 1 = 0 \<and> length data < 2)
      \<longrightarrow> heart_rate_notification_handler w data s = (Some IndexError, s))
   \<and> (1 \<le> length data \<and> data ! 0 AND 1 \<noteq> 0 \<and> length data < 3
      \<longrightarrow> heart_rate_notification_handler w data s = (Some StructError, s))"
  by (auto simp: heart_rate_notification_handler_def hr_val_of_def unpack_from_H_def Let_def)

theorem handler_underlength_witness:
  "[0 :: byte] ! 0 AND 1 = 0 \<and> length [0 :: byte] < 2
   \<and> heart_rate_notification_handler all_ok [0] init_state = (Some IndexError, init_state)
   \<and> 1 \<le> length [1, 44 :: byte] \<and> [1, 44 :: byte] ! 0 AND 1 \<noteq> 0 \<and> length [1, 44 :: byte] < 3
   \<and> heart_rate_notification_handler all_ok [1, 44] init_state = (Some StructError, init_state)"
  using handler_underlength [of "[0]" all_ok init_state]
        handler_underlength [of "[1, 44]" all_ok init_state]
  by simp

text \<open>
  The claim fails where it has the failure caught and logged: for the one-byte
  payload \<open>[0]\<close> on a connected session the handler ends with \<open>IndexError\<close> and the
  trace has no new entry.
\<close>

theorem handler_underlength_counterexample:
  "heart_rate_notification_handler all_ok [0] (connect_ble all_ok ''X'' init_state)
     = (Some IndexError, connect_ble all_ok ''X'' init_state)"
  by (simp add: heart_rate_notification_handler_def hr_val_of_def)

subsection \<open>Order of the effects of a notification\<close>

text \<open>
  C5, as the code has it. For a payload that decodes to \<open>v\<close> the handler does, in
  this order: assign \<open>current_hr\<close> and log the value; if \<open>current_client\<close> is set,
  try the \<open>INSERT\<close> once (a failure is logged and not retried), and if it is
  \<open>None\<close>, try no \<open>INSERT\<close>; broadcast the heart-rate message to every viewer. The
  broadcast happens whether the \<open>INSERT\<close> succeeded, failed or was not tried.
\<close>

theorem handler_order:
  assumes "hr_val_of data = Inr v"
  shows "fst (heart_rate_notification_handler w data s) = None
   \<and> current_hr (snd (heart_rate_notification_handler w data s)) = v
   \<and> trace (snd (heart_rate_notification_handler w data s)) =
       trace s @ [Set_current_hr v, Log_info_heart_rate v]
       @ (case current_client s of
            None \<Rightarrow> []
          | Some c \<Rightarrow> Insert_measurement v (address (clients s ! c)) (db_ok w)
                      # (if db_ok w then [] else [Log_error_database]))
       @ Broadcast (Heart_rate v)
         # concat (map (try_send_json w (Heart_rate v)) (active_connections s))"
  using assms
  by (simp add: heart_rate_notification_handler_def Let_def broadcast_eq emit_def
      save_heart_rate_def split: option.split)

text \<open>A connected session, one viewer, and a database that cannot be written.\<close>

theorem handler_order_witness:
  "hr_val_of [0, 72] = Inr 72
   \<and> trace (snd (heart_rate_notification_handler (all_ok\<lparr>db_ok := False\<rparr>) [0, 72]
        \<lparr>active_connections = [7],
         clients = [\<lparr>address = ''X'', is_connected = True, notify_callbacks = [HR_UUID]\<rparr>],
         current_client = Some 0, current_hr = 0, measurements = [], trace = []\<rparr>))
     = [Set_current_hr 72, Log_info_heart_rate 72, Insert_measurement 72 ''X'' False,
        Log_error_database, Broadcast (Heart_rate 72), Send_json 7 (Heart_rate 72) True]"
proof -
  have h: "hr_val_of [0, 72] = Inr 72"
    by (simp add: hr_val_of_def)
  show ?thesis
    using handler_order [OF h, of "all_ok\<lparr>db_ok := False\<rparr>"
        "\<lparr>active_connections = [7],
          clients = [\<lparr>address = ''X'', is_connected = True, notify_callbacks = [HR_UUID]\<rparr>],
          current_client = Some 0, current_hr = 0, measurements = [], trace = []\<rparr>"] h
    by (simp add: all_ok_def try_send_json_def)
qed

text \<open>
  The claim fails for a notification that arrives when \<open>current_client\<close> is
  \<open>None\<close>, as after \<open>disconnect_ble\<close>: the value is broadcast and no \<open>INSERT\<close> has
  been tried.
\<close>

theorem handler_order_counterexample:
  "insert_attempts (trace (run [(all_ok, Action_connect ''X''), (all_ok, Action_disconnect),
       (all_ok, Notification [0, 72])] init_state)) = []
   \<and> last (trace (run [(all_ok, Action_connect ''X''), (all_ok, Action_disconnect),
       (all_ok, Notification [0, 72])] init_state)) = Broadcast (Heart_rate 72)"
  by (simp add: connect_ble_def connect_ble_begin_def connect_ble_resume_def Let_def
      disconnect_ble_def client_disconnect_def session_connected_def
      heart_rate_notification_handler_def hr_val_of_def save_heart_rate_def
      init_state_def all_ok_def broadcast_eq emit_def insert_attempts_def)

subsection \<open>Broadcast\<close>

text \<open>
  C6. \<open>broadcast\<close> calls \<open>send_json\<close> once for every registered viewer, in the order
  of the list, whatever the earlier sends did; the message reaches exactly the viewers
  whose send succeeds; each failure is logged; the list of viewers is the same
  afterwards, and nothing of the state changes but the trace. The function returns a
  state for every input: no exception leaves it.
\<close>

theorem broadcast_resilient:
  "active_connections (broadcast w msg s) = active_connections s
   \<and> send_attempts (trace (broadcast w msg s)) =
       send_attempts (trace s) @ map (\<lambda>c. (c, msg)) (active_connections s)
   \<and> deliveries (trace (broadcast w msg s)) =
       deliveries (trace s) @ map (\<lambda>c. (c, msg)) (filter (send_json_ok w) (active_connections s))
   \<and> broadcast_errors_logged (trace (broadcast w msg s)) =
       broadcast_errors_logged (trace s) @ filter (\<lambda>c. \<not> send_json_ok w c) (active_connections s)
   \<and> broadcast w msg s = s\<lparr>trace := trace (broadcast w msg s)\<rparr>"
  by (simp add: broadcast_eq send_attempts_append deliveries_append
      broadcast_errors_logged_append send_attempts_try_send_json deliveries_try_send_json
      broadcast_errors_logged_try_send_json del: append.simps)

text \<open>Three viewers, the second of which fails.\<close>

theorem broadcast_resilient_witness:
  "deliveries (trace (broadcast (all_ok\<lparr>send_json_ok := (\<lambda>c. c \<noteq> 2)\<rparr>) (Heart_rate 72)
       (init_state\<lparr>active_connections := [1, 2, 3]\<rparr>)))
     = [(1, Heart_rate 72), (3, Heart_rate 72)]
   \<and> active_connections (broadcast (all_ok\<lparr>send_json_ok := (\<lambda>c. c \<noteq> 2)\<rparr>) (Heart_rate 72)
       (init_state\<lparr>active_connections := [1, 2, 3]\<rparr>)) = [1, 2, 3]"
  using broadcast_resilient [of "all_ok\<lparr>send_json_ok := (\<lambda>c. c \<noteq> 2)\<rparr>" "Heart_rate 72"
      "init_state\<lparr>active_connections := [1, 2, 3]\<rparr>"]
  by (simp add: init_state_def all_ok_def deliveries_def)

subsection \<open>Disconnecting\<close>

text \<open>
  C8. A second \<open>disconnect_ble\<close> right after a first one changes nothing and emits
  nothing; after a call \<open>current_client\<close> is \<open>None\<close>; and the two calls together
  broadcast the status "Disconnected" exactly once when the session was connected
  before the first call (and not at all when it was not).
\<close>

theorem disconnect_ble_idempotent:
  "disconnect_ble w' (disconnect_ble w s) = disconnect_ble w s
   \<and> current_client (disconnect_ble w s) = None
   \<and> \<not> session_connected (disconnect_ble w s)
   \<and> count_list (trace (disconnect_ble w' (disconnect_ble w s)))
         (Broadcast (Status ''Disconnected''))
       = count_list (trace s) (Broadcast (Status ''Disconnected''))
         + (if session_connected s then 1 else 0)"
  by (simp add: disconnect_ble_def session_connected_def broadcast_eq client_disconnect_def
      emit_def count_list_try_send_json)

theorem disconnect_ble_idempotent_witness:
  "session_connected (run [(all_ok, Action_connect ''X'')] init_state)
   \<and> count_list (trace (disconnect_ble all_ok (disconnect_ble all_ok
         (run [(all_ok, Action_connect ''X'')] init_state))))
       (Broadcast (Status ''Disconnected'')) = 1"
proof -
  let ?s = "run [(all_ok, Action_connect ''X'')] init_state"
  have c: "session_connected ?s"
    by (simp add: connect_ble_def connect_ble_begin_def connect_ble_resume_def
        session_connected_def init_state_def all_ok_def broadcast_eq emit_def Let_def)
  have t: "count_list (trace ?s) (Broadcast (Status ''Disconnected'')) = 0"
    by (simp add: connect_ble_def connect_ble_begin_def connect_ble_resume_def
        session_connected_def init_state_def all_ok_def broadcast_eq emit_def Let_def)
  have "count_list (trace (disconnect_ble all_ok (disconnect_ble all_ok ?s)))
          (Broadcast (Status ''Disconnected''))
        = count_list (trace ?s) (Broadcast (Status ''Disconnected''))
          + (if session_connected ?s then 1 else 0)"
    using disconnect_ble_idempotent [of all_ok all_ok ?s]
    by (rule conjunct2 [THEN conjunct2, THEN conjunct2])
  then show ?thesis
    using c t by simp
qed

subsection \<open>The values stored\<close>

text \<open>
  C9, as the code has it. A notification either leaves the table as it is or adds one
  row, whose value is the decoded one: between 0 and 65535, and between 0 and 255 when
  the flag byte selects the 8-bit format.
\<close>

theorem handler_measurement_range:
  "measurements (snd (heart_rate_notification_handler w data s)) = measurements s
   \<or> (\<exists>v. hr_val_of data = Inr v \<and> 0 \<le> v \<and> v \<le> 65535
          \<and> (data ! 0 AND 1 = 0 \<longrightarrow> v \<le> 255)
          \<and> measurements (snd (heart_rate_notification_handler w data s)) =
              measurements s @
              [\<lparr>row_id = next_row_id (measurements s), timestamp = now w, hr_value = v,
                device_address = address (clients s ! the (current_client s))\<rparr>])"
proof (cases "hr_val_of data")
  case (Inl e)
  then show ?thesis by (simp add: heart_rate_notification_handler_def)
next
  case (Inr v)
  from hr_val_of_range [OF Inr] Inr show ?thesis
    by (auto simp: heart_rate_notification_handler_def Let_def broadcast_simps emit_simps
        save_heart_rate_def emit_def split: option.split)
qed

theorem handler_measurement_range_witness:
  "[0, 72 :: byte] ! 0 AND 1 = 0
   \<and> map hr_value (measurements (snd (heart_rate_notification_handler all_ok [0, 72]
        (connect_ble all_ok ''X'' init_state)))) = [72]"
proof -
  let ?s = "connect_ble all_ok ''X'' init_state"
  have m: "measurements ?s = []"
    by (simp add: connect_ble_def connect_ble_begin_def connect_ble_resume_def Let_def
        session_connected_def init_state_def all_ok_def broadcast_eq emit_def)
  have c: "measurements (snd (heart_rate_notification_handler all_ok [0, 72] ?s)) \<noteq> []"
    by (simp add: heart_rate_notification_handler_def hr_val_of_def Let_def
        connect_ble_current_client save_heart_rate_def broadcast_simps emit_simps all_ok_def)
  have h: "hr_val_of [0, 72] = Inr 72"
    by (simp add: hr_val_of_def)
  show ?thesis
    using handler_measurement_range [of all_ok "[0, 72]" ?s] m c h by auto
qed

text \<open>
  The claim fails for the 16-bit format: the payload \<open>[1, 44, 1]\<close> stores 300.
\<close>

theorem handler_measurement_range_counterexample:
  "map hr_value (measurements
     (run [(all_ok, Action_connect ''X''), (all_ok, Notification [1, 44, 1])] init_state)) = [300]"
  by (simp add: connect_ble_def connect_ble_begin_def connect_ble_resume_def Let_def
      session_connected_def heart_rate_notification_handler_def hr_val_of_def unpack_from_H_def
      save_heart_rate_def init_state_def all_ok_def broadcast_eq emit_def uint_word_cat_bytes)

subsection \<open>History\<close>

text \<open>
  C4, as the code has it. Let every timestamp of the table be the text of an instant,
  as \<open>CURRENT_TIMESTAMP\<close> writes it, and let the limit be positive. If the limit is
  below \<open>2 ^ 63\<close>, \<open>get_history\<close> for \<open>minute\<close>, \<open>hour\<close> or \<open>day\<close> returns what the
  specification describes: the samples grouped by their instant truncated to the
  granularity, the \<open>limit\<close> latest groups, earliest first, each shown as the text of
  its truncated instant with the mean of its values rounded to an integer at most one
  half away (a mean halfway between two integers goes to the even one). A limit of
  \<open>2 ^ 63\<close> or more raises \<open>OverflowError\<close>. For 60, 70 and 80 in one minute and
  \<open>limit = 1\<close> the result is one bucket with value 70 (the witness).
\<close>

theorem get_history_aggregate:
  assumes "stamped ms dts" and "0 < limit"
  shows "(limit < 2 ^ 63 \<longrightarrow>
      get_history (period_name g) limit ms
        = Inr (query_aggregate_spec g (nat limit) (zip dts (map hr_value ms)))
      \<and> length (query_aggregate_spec g (nat limit) (zip dts (map hr_value ms)))
          = min (nat limit) (card (truncate_to g ` set dts))
      \<and> sorted_wrt (<) (most_recent (nat limit) (sorted_list_of_set (truncate_to g ` set dts)))
      \<and> \<bar>of_int (py_round (mean_at g (zip dts (map hr_value ms)) d))
           - mean_at g (zip dts (map hr_value ms)) d\<bar> \<le> 1 / 2
      \<and> (mean_at g (zip dts (map hr_value ms)) d
            - of_int \<lfloor>mean_at g (zip dts (map hr_value ms)) d\<rfloor> = 1 / 2
          \<longrightarrow> even (py_round (mean_at g (zip dts (map hr_value ms)) d))))
    \<and> (2 ^ 63 \<le> limit \<longrightarrow> get_history (period_name g) limit ms = Inl OverflowError)"
proof -
  let ?B = "case g of Minute \<Rightarrow> strftime_minute | Hour \<Rightarrow> strftime_hour | Day \<Rightarrow> strftime_day"
  let ?samples = "zip dts (map hr_value ms)"
  have l: "0 \<le> limit" using assms(2) by simp
  have BL: "?B (sql_datetime dt) = bucket_text g (truncate_to g dt)" for dt
    by (cases g) (simp_all add: strftime_truncate)
  have fst: "map fst ?samples = dts"
    using stamped_length [OF assms(1)] by (simp add: map_fst_zip)
  have img: "(\<lambda>x. truncate_to g (fst x)) ` set ?samples = truncate_to g ` set dts"
  proof -
    have "(\<lambda>x. truncate_to g (fst x)) ` set ?samples = truncate_to g ` set (map fst ?samples)"
      by (simp only: set_map image_image)
    then show ?thesis by (simp only: fst)
  qed
  have mean: "sql_avg (map snd (filter (\<lambda>x. truncate_to g (fst x) = d) ?samples))
                = mean_at g ?samples d" for d
    by (simp add: sql_avg_def mean_at_def)
  have eq: "get_history (period_name g) limit ms
           = Inr (query_aggregate_spec g (nat limit) ?samples)" if b: "limit < 2 ^ 63"
  proof -
    have "get_history (period_name g) limit ms =
        Inr (map (\<lambda>k. (k, py_round (sql_avg (bucket_values ?B ms k))))
          (most_recent (nat limit) (sorted_list_of_set ((\<lambda>m. ?B (timestamp m)) ` set ms))))"
      by (simp only: get_history_period_name [OF l b] aggregate_rows [OF l])
    also have "\<dots> = Inr (query_aggregate_spec g (nat limit) ?samples)"
      unfolding query_aggregate_spec_def img
      using aggregate_by_instant [of ?B "bucket_text g" "truncate_to g" ms dts "nat limit",
          OF BL bucket_text_le assms(1)]
      by (simp add: mean)
    finally show ?thesis .
  qed
  have len: "length (query_aggregate_spec g (nat limit) ?samples)
        = min (nat limit) (card (truncate_to g ` set dts))"
    unfolding query_aggregate_spec_def img by (simp add: most_recent_def)
  have "sorted_wrt (<) (sorted_list_of_set (truncate_to g ` set dts))"
    by (simp add: strict_sorted_iff)
  then have srt: "sorted_wrt (<)
      (most_recent (nat limit) (sorted_list_of_set (truncate_to g ` set dts)))"
    by (rule sorted_wrt_most_recent)
  have big: "get_history (period_name g) limit ms = Inl OverflowError" if "2 ^ 63 \<le> limit"
    using that by (simp add: get_history_def sqlite_integer_def)
  show ?thesis
    using eq len srt py_round_nearest py_round_half big by simp
qed

theorem get_history_aggregate_witness:
  "stamped three_in_a_minute
     [(2024, 1, 1, 10, 0, 1), (2024, 1, 1, 10, 0, 2), (2024, 1, 1, 10, 0, 3)]
   \<and> (0 :: int) < 1 \<and> (1 :: int) < 2 ^ 63
   \<and> get_history ''minute'' 1 three_in_a_minute = Inr [(''2024-01-01 10:00'', 70)]"
proof -
  let ?dts = "[(2024, 1, 1, 10, 0, 1), (2024, 1, 1, 10, 0, 2), (2024, 1, 1, 10, 0, 3)]
                :: datetime list"
  have s: "stamped three_in_a_minute ?dts"
    by code_simp
  have l: "(0 :: int) < 1" by simp
  have b: "(1 :: int) < 2 ^ 63" by simp
  have v: "query_aggregate_spec Minute (nat 1) (zip ?dts (map hr_value three_in_a_minute))
             = [(''2024-01-01 10:00'', 70)]"
    by code_simp
  show ?thesis
    using get_history_aggregate [OF s l, of Minute] s b v by simp
qed

text \<open>
  The claim fails for a positive limit that is no signed 64-bit number: the query is
  not run.
\<close>

theorem get_history_aggregate_counterexample:
  "get_history ''minute'' 9223372036854775808 three_in_a_minute = Inl OverflowError"
  by (simp add: get_history_def sqlite_integer_def)

text \<open>
  C7, as the code has it. With limit 0 the result is empty for every period. A
  negative limit from \<open>- (2 ^ 63)\<close> on is handed to \<open>LIMIT\<close> unchanged, which then
  bounds nothing: the result is the whole list of buckets or rows, of which every
  limit that is not negative returns the last ones. A limit below \<open>- (2 ^ 63)\<close>
  raises \<open>OverflowError\<close>.
\<close>

theorem get_history_limit_nonpositive:
  "get_history period 0 ms = Inr []
   \<and> (- (2 ^ 63) \<le> limit \<and> limit < 0 \<longrightarrow>
        (\<exists>rows. get_history period limit ms = Inr rows
           \<and> (\<forall>n. 0 \<le> n \<and> n < 2 ^ 63 \<longrightarrow>
                 get_history period n ms = Inr (most_recent (nat n) rows))))
   \<and> (limit < - (2 ^ 63) \<longrightarrow> get_history period limit ms = Inl OverflowError)"
proof -
  define desc where "desc =
    (if period = ''minute'' then order_by_desc (group_by_avg strftime_minute ms)
     else if period = ''hour'' then order_by_desc (group_by_avg strftime_hour ms)
     else if period = ''day'' then order_by_desc (group_by_avg strftime_day ms)
     else order_by_desc (map (\<lambda>m. (timestamp m, of_int (hr_value m))) ms))"
  let ?f = "\<lambda>row :: string \<times> rat. (fst row, py_round (snd row))"
  have g: "get_history period n ms = Inr (map ?f (rev (sql_limit n desc)))" if "sqlite_integer n" for n
    using that by (simp add: get_history_def Let_def desc_def)
  have zero: "get_history period 0 ms = Inr []"
    by (simp add: g sqlite_integer_def sql_limit_def)
  have neg: "get_history period limit ms = Inr (map ?f (rev desc))"
    if "- (2 ^ 63) \<le> limit" "limit < 0"
    using that by (simp add: g sqlite_integer_def sql_limit_def)
  have pos: "get_history period n ms = Inr (most_recent (nat n) (map ?f (rev desc)))"
    if "0 \<le> n" "n < 2 ^ 63" for n
  proof -
    have "sqlite_integer n" using that by (simp add: sqlite_integer_def)
    then have "get_history period n ms = Inr (map ?f (rev (sql_limit n (rev (rev desc)))))"
      by (simp add: g)
    also have "\<dots> = Inr (map ?f (most_recent (nat n) (rev desc)))"
      by (simp only: rev_sql_limit_rev [OF that(1)])
    finally show ?thesis by (simp add: most_recent_def drop_map)
  qed
  have low: "get_history period limit ms = Inl OverflowError" if "limit < - (2 ^ 63)"
    using that by (simp add: get_history_def sqlite_integer_def)
  show ?thesis
    using zero neg pos low by blast
qed

theorem get_history_limit_nonpositive_witness:
  "- (2 ^ 63) \<le> (-1 :: int) \<and> (-1 :: int) < 0
   \<and> get_history ''raw'' 0 three_in_a_minute = Inr []
   \<and> get_history ''raw'' (-1) three_in_a_minute
       = Inr [(''2024-01-01 10:00:01'', 60), (''2024-01-01 10:00:02'', 70),
              (''2024-01-01 10:00:03'', 80)]
   \<and> get_history ''raw'' (- (2 ^ 63) - 1) three_in_a_minute = Inl OverflowError"
proof -
  have v: "get_history ''raw'' (-1) three_in_a_minute
       = Inr [(''2024-01-01 10:00:01'', 60), (''2024-01-01 10:00:02'', 70),
              (''2024-01-01 10:00:03'', 80)]"
    by code_simp
  show ?thesis
    using get_history_limit_nonpositive [of "''raw''" three_in_a_minute "-1"]
      get_history_limit_nonpositive [of "''raw''" three_in_a_minute "- (2 ^ 63) - 1"] v
    by simp
qed

text \<open>The claim fails for a negative limit: \<open>limit = -1\<close> returns the bucket.\<close>

theorem get_history_limit_nonpositive_counterexample:
  "get_history ''minute'' (-1) three_in_a_minute = Inr [(''2024-01-01 10:00'', 70)]"
  by code_simp



text \<open>Rows with one timestamp: the first inserted is the one kept.\<close>

lemma get_history_raw_ties:
  "get_history ''raw'' 1 three_in_a_second = Inr [(''2024-01-01 10:00:01'', 60)]"
  "get_history ''raw'' 3 three_in_a_second
     = Inr [(''2024-01-01 10:00:01'', 80), (''2024-01-01 10:00:01'', 70),
            (''2024-01-01 10:00:01'', 60)]"
  by code_simp+


end
